theory Spec2Isabelle
  imports Main
begin

section \<open>The shell of jshell.c: data model\<close>

text \<open>
  A word is a C string, here a \<^typ>\<open>string\<close>.  A word list is the NULL-terminated array
  \<^verbatim>\<open>char **words\<close>: where the program only reads it, it is a \<^typ>\<open>string list\<close> (the
  terminator is the end of the list); where the program writes NULL into the middle of the
  array (\<^verbatim>\<open>split_words\<close>, \<^verbatim>\<open>setup_redirect_output\<close>) and moves the pointer
  (\<^verbatim>\<open>next_pipe\<close>, \<^verbatim>\<open>setup_redirect_input\<close>), it is the array itself, a
  \<^typ>\<open>string option list\<close> in which \<open>None\<close> is NULL, together with an offset.

  The operating system is a record of oracles, one per system call whose answer the
  program branches on.  What the program does to the outside world is a list of events.
\<close>

definition MAX_LINE_CHARS :: nat where
  "MAX_LINE_CHARS = 1024"

text \<open>\<^verbatim>\<open>#define NONE 0\<close>, \<^verbatim>\<open>STORE 1\<close>, \<^verbatim>\<open>APPEND 2\<close>: the output redirection flag.\<close>

datatype redirect = Redirect_NONE | Redirect_STORE | Redirect_APPEND

datatype file_kind = Regular | Directory | Other_kind

record os =
  access_F_OK :: "string \<Rightarrow> bool"
  stat_kind :: "string \<Rightarrow> file_kind option"
  faccessat_X_OK :: "string \<Rightarrow> bool"
  glob_paths :: "string \<Rightarrow> string list"
  tilde_expand :: "string \<Rightarrow> string"
  fopen_ok :: "string \<Rightarrow> string \<Rightarrow> bool"
  getenv_HOME :: "string option"
  spawn_pid :: "nat \<Rightarrow> nat option"
  waitpid_status :: "nat \<Rightarrow> int option"

text \<open>
  \<^item> \<open>access_F_OK p\<close>: \<^verbatim>\<open>access(p, F_OK) != -1\<close>;
  \<^item> \<open>stat_kind p\<close>: \<open>None\<close> when \<^verbatim>\<open>stat(p, &s)\<close> fails, else the kind of file in \<^verbatim>\<open>s.st_mode\<close>;
  \<^item> \<open>faccessat_X_OK p\<close>: \<^verbatim>\<open>faccessat(AT_FDCWD, p, X_OK, AT_EACCESS) == 0\<close>;
  \<^item> \<open>glob_paths p\<close>: the existing paths that the pattern \<open>p\<close> matches, in the order
    \<^verbatim>\<open>glob\<close> returns them (empty when nothing matches);
  \<^item> \<open>tilde_expand p\<close>: for a word \<open>p\<close> of the form \<^verbatim>\<open>~\<close> or \<^verbatim>\<open>~user\<close>, the home
    directory it names (\<open>p\<close> itself when no home directory is known for it);
  \<^item> \<open>fopen_ok p m\<close>: \<^verbatim>\<open>fopen(p, m) != NULL\<close>;
  \<^item> \<open>getenv_HOME\<close>: the result of \<^verbatim>\<open>getenv("HOME")\<close>, \<open>None\<close> for NULL;
  \<^item> \<open>spawn_pid k\<close>: what the \<^verbatim>\<open>posix_spawn\<close> of stage \<open>k\<close> of a line does: \<open>Some pid\<close>
    when it starts a process and stores its id in \<^verbatim>\<open>child\<close>, \<open>None\<close> when it fails
    and leaves \<^verbatim>\<open>child\<close> as it was;
  \<^item> \<open>waitpid_status c\<close>: \<open>None\<close> when \<^verbatim>\<open>waitpid(c, &exit_status, 0)\<close> returns -1, else
    the value stored in \<^verbatim>\<open>exit_status\<close>.
\<close>

text \<open>
  File descriptors are named by the variable that holds them: \<open>Pipe_array k\<close> is
  \<^verbatim>\<open>pipe_array[k]\<close>, \<open>Pipe_file_in k\<close> is \<^verbatim>\<open>pipe_file_in[k]\<close>, \<open>Pipe_file_out k\<close> is
  \<^verbatim>\<open>pipe_file_out[k]\<close>; \<open>Fd n\<close> is the literal descriptor \<open>n\<close>.
\<close>

datatype fd = Fd nat | Pipe_array nat | Pipe_file_in nat | Pipe_file_out nat

datatype file_action = Addclose fd | Adddup2 fd fd

text \<open>
  \<open>Pipe d\<close> is the call \<^verbatim>\<open>pipe(&d)\<close>, which fills \<open>d\<close> (read end) and the descriptor after
  it (write end).  \<open>Posix_spawn r full_path actions args\<close> is the call of \<^verbatim>\<open>posix_spawn\<close>
  with its result \<open>r\<close>: the id of the new process, or \<open>None\<close> when the call failed and
  no process was started.  \<open>Store_command ws\<close> is the line that \<^verbatim>\<open>store_command\<close>
  appends to the history file.  \<open>Call_builtin f ws\<close> is the call of the C function \<open>f\<close>
  on the words \<open>ws\<close>, from its first statement to its last: the bodies of the built-ins
  are not part of this development, and what follows a \<open>Call_builtin\<close> in a trace is
  what the shell does after the call, once the built-in has returned (\<^verbatim>\<open>do_exit\<close> ends
  the process instead).
\<close>

datatype event =
    Pipe fd
  | Posix_spawn "nat option" string "file_action list" "string list"
  | Close fd
  | Copy_file_to_pipe string fd
  | Copy_pipe_to_file fd string string
  | Waitpid nat
  | Printf string
  | Stderr string
  | Perror string
  | Store_command "string list"
  | Call_builtin string "string list"

text \<open>
  How a C function ends: it returns, or it runs into undefined behaviour (a NULL pointer
  handed to \<^verbatim>\<open>strcmp\<close>, \<^verbatim>\<open>strrchr\<close>, \<^verbatim>\<open>strlen\<close>, \<^verbatim>\<open>fgets\<close> or \<^verbatim>\<open>fputs\<close>, a
  variable read before it is set), which on the platforms the shell runs on is a crash.
\<close>

datatype outcome = Returned | Undefined_behaviour

section \<open>Helper functions\<close>

text \<open>\<^verbatim>\<open>snprintf(buf, MAX_LINE_CHARS, ...)\<close> stores at most \<open>MAX_LINE_CHARS - 1\<close> characters.\<close>

definition snprintf :: "string \<Rightarrow> string" where
  "snprintf s = take (MAX_LINE_CHARS - 1) s"

text \<open>\<^verbatim>\<open>strrchr(s, c) != NULL\<close>.\<close>

definition strrchr :: "string \<Rightarrow> char \<Rightarrow> bool" where
  "strrchr s c = (c \<in> set s)"

text \<open>\<^verbatim>\<open>strspn\<close> and \<^verbatim>\<open>strcspn\<close>.\<close>

definition strspn :: "string \<Rightarrow> string \<Rightarrow> nat" where
  "strspn s accept = length (takeWhile (\<lambda>c. c \<in> set accept) s)"

definition strcspn :: "string \<Rightarrow> string \<Rightarrow> nat" where
  "strcspn s reject = length (takeWhile (\<lambda>c. c \<notin> set reject) s)"

text \<open>\<^verbatim>\<open>printf("%d", n)\<close> for a number that is not negative.\<close>

fun string_of_nat :: "nat \<Rightarrow> string" where
  "string_of_nat n =
     (if n < 10 then [''0123456789'' ! n]
      else string_of_nat (n div 10) @ [''0123456789'' ! (n mod 10)])"

declare string_of_nat.simps [simp del]

text \<open>\<^verbatim>\<open>WEXITSTATUS(status)\<close>: bits 8 to 15 of the status.\<close>

definition WEXITSTATUS :: "int \<Rightarrow> nat" where
  "WEXITSTATUS status = nat ((status div 256) mod 256)"

text \<open>
  \<^verbatim>\<open>words_length\<close> counts the entries before the first NULL.  On the array with offset
  \<open>words\<close>, the entries before the first NULL are \<open>argv buf words\<close>: this is also the argument
  vector that \<^verbatim>\<open>posix_spawn\<close> reads from that pointer.
\<close>

definition argv :: "string option list \<Rightarrow> nat \<Rightarrow> string list" where
  "argv buf words = map the (takeWhile (\<lambda>w. w \<noteq> None) (drop words buf))"

definition words_length :: "string option list \<Rightarrow> nat \<Rightarrow> nat" where
  "words_length buf words = length (argv buf words)"

text \<open>\<^verbatim>\<open>is_executable\<close>: the file exists, is a regular file, and can be executed.\<close>

definition is_executable :: "os \<Rightarrow> string \<Rightarrow> bool" where
  "is_executable sys pathname =
     (stat_kind sys pathname \<noteq> None \<and>
      stat_kind sys pathname = Some Regular \<and>
      faccessat_X_OK sys pathname)"

text \<open>
  \<^verbatim>\<open>get_full_path\<close>: the first directory of \<open>path\<close> in which \<^verbatim>\<open>access(full_path, F_OK)\<close>
  succeeds gives \<open>Inr full_path\<close> (the C function returns 1 and leaves the string in
  \<^verbatim>\<open>full_path\<close>); when the directories are exhausted the function prints the message and
  returns 0, here \<open>Inl\<close> of the event.
\<close>

fun get_full_path :: "os \<Rightarrow> string \<Rightarrow> string list \<Rightarrow> event + string" where
  "get_full_path sys program [] = Inl (Stderr (program @ '': command not found\<newline>''))"
| "get_full_path sys program (dir # path) =
     (let full_path = snprintf (dir @ ''/'' @ program)
      in if access_F_OK sys full_path then Inr full_path
         else get_full_path sys program path)"

text \<open>\<^verbatim>\<open>no_redirect\<close>: the message for a redirected built-in.\<close>

definition no_redirect :: "string \<Rightarrow> event" where
  "no_redirect program =
     Stderr (program @ '': I/O redirection not permitted for builtin commands\<newline>'')"

section \<open>Tokens\<close>

text \<open>\<^verbatim>\<open>tokenize\<close>: the loop over the rest \<open>s\<close> of the line.\<close>

function tokenize :: "string \<Rightarrow> string \<Rightarrow> string \<Rightarrow> string list" where
  "tokenize s separators special_chars =
     (if s = [] then []
      else
        let s1 = drop (strspn s separators) s
        in if s1 = [] then []
           else
             let token_length = strcspn s1 separators;
                 token_length_without_special_chars = strcspn s1 special_chars;
                 token_length_without_special_chars =
                   (if token_length_without_special_chars = 0 then 1
                    else token_length_without_special_chars);
                 token_length =
                   (if token_length_without_special_chars < token_length
                    then token_length_without_special_chars else token_length)
             in take token_length s1
                # tokenize (drop token_length s1) separators special_chars)"
  by pat_completeness auto
termination
proof (relation "measure (\<lambda>(s, separators, special_chars). length s)", goal_cases)
  case 1
  show ?case by simp
next
  case (2 s separators special_chars s1 tl tlw tlw' tl')
  have s1: "s1 = dropWhile (\<lambda>c. c \<in> set separators) s"
    unfolding \<open>s1 = drop (strspn s separators) s\<close> strspn_def
    by (rule dropWhile_eq_drop [symmetric])
  have "hd s1 \<notin> set separators"
    unfolding s1 using \<open>s1 \<noteq> []\<close> hd_dropWhile [of "\<lambda>c. c \<in> set separators" s]
    unfolding s1 by blast
  with \<open>s1 \<noteq> []\<close> have "takeWhile (\<lambda>c. c \<notin> set separators) s1 \<noteq> []"
    by (cases s1) simp_all
  then have "0 < tl"
    unfolding \<open>tl = strcspn s1 separators\<close> strcspn_def by simp
  moreover have "0 < tlw'"
    unfolding \<open>tlw' = (if tlw = 0 then 1 else tlw)\<close> by simp
  ultimately have "0 < tl'"
    unfolding \<open>tl' = (if tlw' < tl then tlw' else tl)\<close> by simp
  moreover have "length s1 \<le> length s"
    unfolding \<open>s1 = drop (strspn s separators) s\<close> by simp
  moreover have "length s1 - tl' < length s1"
    using \<open>0 < tl'\<close> \<open>s1 \<noteq> []\<close> by (cases s1) simp_all
  ultimately show ?case by simp
qed

declare tokenize.simps [simp del]

definition WORD_SEPARATORS :: string where
  "WORD_SEPARATORS = [CHR '' '', CHR 0x09, CHR 0x0D, CHR 0x0A]"

definition SPECIAL_CHARS :: string where
  "SPECIAL_CHARS = ''!><|''"

section \<open>Glob expansion\<close>

text \<open>The test of \<^verbatim>\<open>glob_words\<close> for a word that needs globbing.\<close>

definition needs_glob :: "string \<Rightarrow> bool" where
  "needs_glob w =
     (strrchr w CHR ''*'' \<or> strrchr w CHR ''?'' \<or> strrchr w CHR ''['' \<or> strrchr w CHR ''~'')"

text \<open>
  With \<^verbatim>\<open>GLOB_TILDE\<close> a pattern without \<^verbatim>\<open>/\<close> that starts with \<^verbatim>\<open>~\<close> is the notation
  for a home directory.
\<close>

definition tilde_word :: "string \<Rightarrow> bool" where
  "tilde_word pattern =
     (pattern \<noteq> [] \<and> hd pattern = CHR ''~'' \<and> \<not> strrchr pattern CHR ''/'')"

text \<open>
  \<^verbatim>\<open>glob(pattern, GLOB_NOCHECK|GLOB_TILDE, NULL, globbed_data)\<close>: the vector \<^verbatim>\<open>gl_pathv\<close>.
  With \<^verbatim>\<open>GLOB_NOCHECK\<close> a pattern that matches nothing is returned as the only entry; for
  the notation of a home directory that entry is the directory, whether it exists or not.
\<close>

definition glob :: "os \<Rightarrow> string \<Rightarrow> string list" where
  "glob sys pattern =
     (if glob_paths sys pattern = []
      then [if tilde_word pattern then tilde_expand sys pattern else pattern]
      else glob_paths sys pattern)"

text \<open>
  The three copy loops that build \<^verbatim>\<open>new_words\<close> for the word at index \<open>i\<close>.  The third
  loop of the source also copies the terminator \<^verbatim>\<open>words[length]\<close>; the list stops before it.
\<close>

definition new_words :: "string list \<Rightarrow> nat \<Rightarrow> string list \<Rightarrow> string list" where
  "new_words words i gl_pathv =
     (let gl_pathc = length gl_pathv; len = length words
      in map (\<lambda>s. words ! s) [0..<i]
         @ map (\<lambda>s. gl_pathv ! (s - i)) [i..<gl_pathc + i]
         @ map (\<lambda>s. words ! (i + s + 1 - (gl_pathc + i))) [gl_pathc + i..<gl_pathc + len - 1])"

text \<open>
  The loop \<^verbatim>\<open>for (int i = 1; words[i] != NULL; i++)\<close>.  After an expansion the loop goes
  on at \<open>i + 1\<close> in the new array, so it scans the matches from the second one on; with
  matches that contain metacharacters themselves it need not end, hence the result is an
  option (\<open>None\<close>: the loop runs forever).
\<close>

partial_function (option) glob_loop :: "os \<Rightarrow> nat \<Rightarrow> string list \<Rightarrow> string list option" where
  "glob_loop sys i words =
     (if i < length words then
        (if needs_glob (words ! i)
         then glob_loop sys (i + 1) (new_words words i (glob sys (words ! i)))
         else glob_loop sys (i + 1) words)
      else Some words)"

declare glob_loop.simps [code]

definition glob_words :: "os \<Rightarrow> string list \<Rightarrow> string list option" where
  "glob_words sys words = glob_loop sys 1 words"

section \<open>Pipes\<close>

text \<open>\<^verbatim>\<open>num_pipes\<close>: how many words are \<^verbatim>\<open>"|"\<close>.\<close>

fun num_pipes :: "string list \<Rightarrow> nat" where
  "num_pipes [] = 0"
| "num_pipes (w # words) = (if w = ''|'' then 1 else 0) + num_pipes words"

text \<open>
  The \<^verbatim>\<open>while\<close> loop of \<^verbatim>\<open>valid_pipe\<close> over the words from index \<open>i\<close> on.  The
  comparisons with \<^verbatim>\<open>length - 2\<close> and \<^verbatim>\<open>length - 3\<close> are on C integers, which may be
  negative, so \<open>len\<close> and \<open>i\<close> are of type \<^typ>\<open>int\<close>.
\<close>

fun valid_pipe_loop :: "int \<Rightarrow> int \<Rightarrow> bool \<Rightarrow> string list \<Rightarrow> bool" where
  "valid_pipe_loop len i prev_pipe [] = True"
| "valid_pipe_loop len i prev_pipe (w # rest) =
     (if w = ''>'' \<and> i \<noteq> len - 2 \<and> i \<noteq> len - 3 then False
      else if w = ''<'' \<and> i \<noteq> 0 then False
      else if w = ''|'' then
        (if prev_pipe then False else valid_pipe_loop len (i + 1) True rest)
      else valid_pipe_loop len (i + 1) False rest)"

text \<open>
  \<^verbatim>\<open>valid_pipe\<close>, on a word list that is not empty (the source reads \<^verbatim>\<open>words[0]\<close>
  first; \<^verbatim>\<open>execute_external\<close> below covers the empty list).
\<close>

definition valid_pipe :: "string list \<Rightarrow> bool" where
  "valid_pipe words =
     (if hd words = ''|'' then False
      else if \<not> valid_pipe_loop (int (length words)) 0 False words then False
      else if last words = ''|'' then False
      else True)"

text \<open>\<^verbatim>\<open>split_words\<close>: every \<^verbatim>\<open>"|"\<close> before the first NULL becomes NULL.\<close>

definition split_words :: "string option list \<Rightarrow> nat \<Rightarrow> string option list" where
  "split_words buf words =
     fold (\<lambda>i b. if b ! (words + i) = Some ''|'' then b[words + i := None] else b)
       [0..<words_length buf words] buf"

text \<open>\<^verbatim>\<open>next_pipe\<close>: the pointer after the first NULL.\<close>

definition next_pipe :: "string option list \<Rightarrow> nat \<Rightarrow> nat" where
  "next_pipe buf words = words + words_length buf words + 1"

section \<open>Redirection\<close>

text \<open>
  \<^verbatim>\<open>setup_redirect_input\<close> returns the new \<^verbatim>\<open>words\<close> pointer, the flag
  \<^verbatim>\<open>redirect_in\<close>, the file actions it added and the content of \<^verbatim>\<open>in_file\<close>.
\<close>

definition setup_redirect_input ::
  "string option list \<Rightarrow> nat \<Rightarrow> string \<Rightarrow> nat \<times> bool \<times> file_action list \<times> string" where
  "setup_redirect_input buf words in_file =
     (let len = words_length buf words
      in if len > 2 \<and> strrchr (argv buf words ! 0) CHR ''<''
         then (words + 2, True,
               [Addclose (Pipe_file_in 1), Adddup2 (Pipe_file_in 0) (Fd 0)],
               argv buf words ! 1)
         else (words, False, [], in_file))"

text \<open>
  \<^verbatim>\<open>setup_redirect_output\<close> returns the array after its writes, the flag \<^verbatim>\<open>redirect\<close>
  and the file actions it added.
\<close>

definition setup_redirect_output ::
  "string option list \<Rightarrow> nat \<Rightarrow> string option list \<times> redirect \<times> file_action list" where
  "setup_redirect_output buf words =
     (let len = words_length buf words
      in if len > 2 \<and> buf ! (words + len - 2) = Some ''>''
         then
           (let actions = [Addclose (Pipe_file_out 0), Adddup2 (Pipe_file_out 1) (Fd 1)];
                buf1 = buf[words + len - 2 := None]
            in if len > 3 \<and> buf1 ! (words + len - 3) = Some ''>''
               then (buf1[words + len - 3 := None], Redirect_APPEND, actions)
               else (buf1, Redirect_STORE, actions))
         else (buf, Redirect_NONE, []))"

text \<open>
  \<^verbatim>\<open>redirect_input\<close>.  When \<^verbatim>\<open>fopen(in_file, "r")\<close> fails the source prints the error
  and goes on to call \<^verbatim>\<open>fgets\<close> and \<^verbatim>\<open>fclose\<close> on the NULL stream.
\<close>

definition redirect_input :: "os \<Rightarrow> string \<Rightarrow> event list \<times> outcome" where
  "redirect_input sys in_file =
     (if fopen_ok sys in_file ''r''
      then ([Close (Pipe_file_in 0), Copy_file_to_pipe in_file (Pipe_file_in 1)], Returned)
      else ([Close (Pipe_file_in 0), Perror ''fopen''], Undefined_behaviour))"

text \<open>
  \<^verbatim>\<open>redirect_output\<close>.  The file name is read at \<^verbatim>\<open>words[length + 1]\<close>, behind the NULL
  that \<^verbatim>\<open>setup_redirect_output\<close> wrote; a NULL there is printed by \<^verbatim>\<open>snprintf\<close> as
  \<^verbatim>\<open>(null)\<close>.
\<close>

definition redirect_output :: "os \<Rightarrow> string option list \<Rightarrow> nat \<Rightarrow> redirect \<Rightarrow> event list" where
  "redirect_output sys buf words redirect =
     (let len = words_length buf words;
          len = (if redirect = Redirect_APPEND then len + 1 else len);
          file_path = snprintf (''./'' @ (case buf ! (words + len + 1) of
                                             Some name \<Rightarrow> name | None \<Rightarrow> ''(null)''));
          mode = (if redirect = Redirect_STORE then ''w'' else ''a'')
      in if fopen_ok sys file_path mode
         then [Close (Pipe_file_out 1), Copy_pipe_to_file (Pipe_file_out 0) file_path mode]
         else [Close (Pipe_file_out 1), Perror ''fopen''])"

section \<open>Executing external programs\<close>

text \<open>The local variables of \<^verbatim>\<open>execute_external\<close> that live across the stages.\<close>

record frame =
  f_buf :: "string option list"
  f_words :: nat
  f_full_path :: string
  f_child :: "nat option"
  f_in_file :: string

text \<open>
  One turn of the loop \<^verbatim>\<open>while (pipe_count <= pipe_num)\<close>: the events of the turn, and
  either the frame for the next turn or, when the function returns from inside the loop,
  how it ended.  The result of \<^verbatim>\<open>posix_spawn\<close> is not looked at: when the call fails,
  \<^verbatim>\<open>child\<close> keeps the value it had and the turn goes on as if a process had been started.
\<close>

definition launch_stage ::
  "os \<Rightarrow> string list \<Rightarrow> nat \<Rightarrow> nat \<Rightarrow> frame \<Rightarrow> event list \<times> (outcome + frame)" where
  "launch_stage sys path pipe_num pipe_count fr =
     (let (words, redirect_in, actions_in, in_file, events_in) =
            (if pipe_count = 0
             then (case setup_redirect_input (f_buf fr) (f_words fr) (f_in_file fr) of
                     (w, r, a, f) \<Rightarrow> (w, r, a, f, [Pipe (Pipe_file_in 0)]))
             else (f_words fr, False, [], f_in_file fr, []));
          (buf, redirect_out, actions_out, events_out) =
            (if pipe_count = pipe_num
             then (case setup_redirect_output (f_buf fr) words of
                     (b, r, a) \<Rightarrow> (b, r, a, [Pipe (Pipe_file_out 0)]))
             else (f_buf fr, Redirect_NONE, [], []));
          actions_stdout =
            (if pipe_count \<noteq> pipe_num
             then [Addclose (Pipe_array (pipe_count * 2)),
                   Adddup2 (Pipe_array (pipe_count * 2 + 1)) (Fd 1)]
             else []);
          actions_stdin =
            (if pipe_count \<noteq> 0 then [Adddup2 (Pipe_array ((pipe_count - 1) * 2)) (Fd 0)]
             else []);
          actions = actions_in @ actions_out @ actions_stdout @ actions_stdin
      in case argv buf words of
           [] \<Rightarrow> (events_in @ events_out, Inl Undefined_behaviour)
         | program # _ \<Rightarrow>
             (case (if \<not> strrchr program CHR ''/'' then get_full_path sys program path
                    else Inr program) of
                Inl message \<Rightarrow> (events_in @ events_out @ [message], Inl Returned)
              | Inr full_path \<Rightarrow>
                  if \<not> is_executable sys full_path
                  then (events_in @ events_out
                          @ [Stderr (full_path @ '': command not found\<newline>'')],
                        Inl Returned)
                  else
                    (let spawn = Posix_spawn (spawn_pid sys pipe_count) full_path actions
                                   (argv buf words);
                         child = (case spawn_pid sys pipe_count of
                                    None \<Rightarrow> f_child fr | Some pid \<Rightarrow> Some pid);
                         (events_rin, ok) =
                           (if redirect_in then redirect_input sys in_file
                            else ([], Returned));
                         events_rout =
                           (if redirect_out = Redirect_STORE \<or> redirect_out = Redirect_APPEND
                            then redirect_output sys buf words redirect_out else []);
                         events_close =
                           (if pipe_count \<noteq> 0
                            then [Close (Pipe_array ((pipe_count - 1) * 2))] else [])
                           @ (if pipe_count \<noteq> pipe_num
                              then [Close (Pipe_array (pipe_count * 2 + 1))] else []);
                         words' = (if pipe_count < pipe_num then next_pipe buf words
                                   else words)
                     in if ok = Undefined_behaviour
                        then (events_in @ events_out @ [spawn] @ events_rin,
                              Inl Undefined_behaviour)
                        else (events_in @ events_out @ [spawn] @ events_rin @ events_rout
                                @ events_close,
                              Inr \<lparr>f_buf = buf, f_words = words', f_full_path = full_path,
                                   f_child = child, f_in_file = in_file\<rparr>))))"

function stage_loop ::
  "os \<Rightarrow> string list \<Rightarrow> nat \<Rightarrow> nat \<Rightarrow> frame \<Rightarrow> event list \<times> (outcome + frame)" where
  "stage_loop sys path pipe_num pipe_count fr =
     (if pipe_count \<le> pipe_num then
        (case launch_stage sys path pipe_num pipe_count fr of
           (events, Inl out) \<Rightarrow> (events, Inl out)
         | (events, Inr fr') \<Rightarrow>
             (case stage_loop sys path pipe_num (pipe_count + 1) fr' of
                (events', r) \<Rightarrow> (events @ events', r)))
      else ([], Inr fr))"
  by pat_completeness auto
termination
  by (relation "measure (\<lambda>(sys, path, pipe_num, pipe_count, fr). pipe_num + 1 - pipe_count)")
    auto

declare stage_loop.simps [simp del]

text \<open>
  The end of \<^verbatim>\<open>execute_external\<close>: wait for \<^verbatim>\<open>child\<close> and print its exit status.
  \<^verbatim>\<open>child\<close> is not initialised before the first \<^verbatim>\<open>posix_spawn\<close>.
\<close>

definition wait_and_report :: "os \<Rightarrow> frame \<Rightarrow> event list \<times> outcome" where
  "wait_and_report sys fr =
     (case f_child fr of
        None \<Rightarrow> ([], Undefined_behaviour)
      | Some child \<Rightarrow>
          (case waitpid_status sys child of
             None \<Rightarrow> ([Waitpid child, Perror ''waitpid''], Returned)
           | Some exit_status \<Rightarrow>
               ([Waitpid child,
                 Printf (f_full_path fr @ '' exit status = ''
                         @ string_of_nat (WEXITSTATUS exit_status) @ ''\<newline>'')],
                Returned)))"

text \<open>
  \<^verbatim>\<open>execute_external\<close>.  The array is the word list with its terminator.  With no word
  at all \<^verbatim>\<open>valid_pipe\<close> hands the NULL \<^verbatim>\<open>words[0]\<close> to \<^verbatim>\<open>strcmp\<close>.
\<close>

definition execute_external :: "os \<Rightarrow> string list \<Rightarrow> string list \<Rightarrow> event list \<times> outcome" where
  "execute_external sys words path =
     (if words = [] then ([], Undefined_behaviour)
      else if \<not> valid_pipe words then ([Stderr ''invalid pipe\<newline>''], Returned)
      else
        (let pipe_num = num_pipes words;
             events_pipes = map (\<lambda>i. Pipe (Pipe_array (i * 2))) [0..<pipe_num];
             buf = split_words (map Some words @ [None]) 0
         in case stage_loop sys path pipe_num 0
                   \<lparr>f_buf = buf, f_words = 0, f_full_path = [], f_child = None,
                    f_in_file = []\<rparr> of
              (events, Inl out) \<Rightarrow> (events_pipes @ events, out)
            | (events, Inr fr) \<Rightarrow>
                (case wait_and_report sys fr of
                   (events', out) \<Rightarrow> (events_pipes @ events @ events', out))))"

section \<open>Executing a command line\<close>

text \<open>
  The head of \<^verbatim>\<open>execute_command\<close>: the variable \<^verbatim>\<open>program\<close>, which stays NULL
  (\<open>None\<close>) when neither branch assigns it, and the flag \<^verbatim>\<open>is_redirect\<close>.
\<close>

definition program_of :: "string list \<Rightarrow> string option" where
  "program_of words =
     (if \<not> strrchr (words ! 0) CHR ''<'' then Some (words ! 0)
      else if length words > 2 then Some (words ! 2)
      else None)"

definition is_redirect :: "string list \<Rightarrow> bool" where
  "is_redirect words =
     ((strrchr (words ! 0) CHR ''<'' \<and> length words > 2)
      \<or> (length words > 2 \<and> words ! (length words - 2) = ''>'')
      \<or> num_pipes words \<noteq> 0)"

text \<open>
  \<^verbatim>\<open>get_file_in_home\<close>: \<^verbatim>\<open>getenv("HOME")\<close> goes to \<^verbatim>\<open>strlen\<close> unchecked, so without
  \<^verbatim>\<open>HOME\<close> there is no result (\<open>None\<close>) but undefined behaviour.
\<close>

definition get_file_in_home :: "os \<Rightarrow> string \<Rightarrow> string option" where
  "get_file_in_home sys filename =
     (case getenv_HOME sys of
        None \<Rightarrow> None
      | Some home \<Rightarrow> Some (home @ ''/'' @ filename))"

text \<open>
  \<^verbatim>\<open>store_command\<close>: the words are appended to \<^verbatim>\<open>~/.cowrie_history\<close>.  The result of
  \<^verbatim>\<open>fopen\<close> goes to \<^verbatim>\<open>fputs\<close> unchecked.
\<close>

definition store_command :: "os \<Rightarrow> string list \<Rightarrow> event list \<times> outcome" where
  "store_command sys words =
     (case get_file_in_home sys ''.cowrie_history'' of
        None \<Rightarrow> ([], Undefined_behaviour)
      | Some file_path \<Rightarrow>
          if fopen_ok sys file_path ''a'' then ([Store_command words], Returned)
          else ([], Undefined_behaviour))"

text \<open>
  \<^verbatim>\<open>execute_command\<close>.  \<open>None\<close>: the glob loop does not end.  Comparing the NULL
  \<^verbatim>\<open>program\<close> with \<^verbatim>\<open>"history"\<close> is undefined behaviour, and so is a
  \<^verbatim>\<open>store_command\<close> that cannot open the history file: nothing that follows it in the
  source is reached.  The environment is handed through to \<^verbatim>\<open>posix_spawn\<close> unchanged
  and is left out.
\<close>

definition execute_command ::
  "os \<Rightarrow> string list \<Rightarrow> string list \<Rightarrow> (event list \<times> outcome) option" where
  "execute_command sys words path =
     (if words = [] then Some ([], Returned)
      else
        (case program_of words of
           None \<Rightarrow> Some ([], Undefined_behaviour)
         | Some program \<Rightarrow>
             if program = ''history'' then
               (case store_command sys words of
                  (events, out) \<Rightarrow>
                    if is_redirect words then Some (no_redirect program # events, out)
                    else Some (Call_builtin ''print_history'' words # events, out))
             else if program = ''!'' then
               (if is_redirect words then Some ([no_redirect program], Returned)
                else Some ([Call_builtin ''execute_history'' words], Returned))
             else
               (case store_command sys words of
                  (events, out) \<Rightarrow>
                    if out = Undefined_behaviour then Some (events, out)
                    else
                      (case glob_words sys words of
                         None \<Rightarrow> None
                       | Some globbed \<Rightarrow>
                           if program = ''exit'' then
                             (if is_redirect words
                              then Some (events @ [no_redirect program], Returned)
                              else Some (events @ [Call_builtin ''do_exit'' globbed],
                                         Returned))
                           else if program = ''cd'' then
                             (if is_redirect words
                              then Some (events @ [no_redirect program], Returned)
                              else Some (events @ [Call_builtin ''cd'' globbed], Returned))
                           else if program = ''pwd'' then
                             (if is_redirect words
                              then Some (events @ [no_redirect program], Returned)
                              else Some (events @ [Call_builtin ''pwd'' globbed], Returned))
                           else
                             (case execute_external sys globbed path of
                                (events', out') \<Rightarrow> Some (events @ events', out'))))))"

section \<open>Reading traces\<close>

text \<open>The kinds of event that the properties below look for.\<close>

fun is_spawn :: "event \<Rightarrow> bool" where
  "is_spawn (Posix_spawn child full_path actions args) = True"
| "is_spawn e = False"

fun is_file_io :: "event \<Rightarrow> bool" where
  "is_file_io (Copy_pipe_to_file d file_path mode) = True"
| "is_file_io (Copy_file_to_pipe in_file d) = True"
| "is_file_io (Perror s) = True"
| "is_file_io e = False"

text \<open>The history file of the line can be opened: \<^verbatim>\<open>store_command\<close> returns.\<close>

definition history_opens :: "os \<Rightarrow> bool" where
  "history_opens sys =
     (case get_file_in_home sys ''.cowrie_history'' of
        None \<Rightarrow> False
      | Some file_path \<Rightarrow> fopen_ok sys file_path ''a'')"

section \<open>Systems to run the program on\<close>

text \<open>
  \<^verbatim>\<open>/bin/cat\<close>, \<^verbatim>\<open>/bin/ls\<close>, \<^verbatim>\<open>/bin/wc\<close> and \<^verbatim>\<open>/b/prog\<close> are executable files,
  \<^verbatim>\<open>/a/prog\<close> is a regular file without execute permission.  \<^verbatim>\<open>HOME\<close> is
  \<^verbatim>\<open>/home/u\<close>, which exists; the user \<^verbatim>\<open>guest\<close> has the home directory
  \<^verbatim>\<open>/home/guest\<close>, which does not exist.  No other pattern matches anything.  Only
  \<^verbatim>\<open>./out\<close> and the history file can be opened.  Every \<^verbatim>\<open>posix_spawn\<close> starts a
  process, and every process ends with exit status 1.
\<close>

definition example_os :: os where
  "example_os =
     \<lparr>access_F_OK =
        (\<lambda>p. p \<in> set [''/bin/cat'', ''/bin/ls'', ''/bin/wc'', ''/a/prog'', ''/b/prog'']),
      stat_kind =
        (\<lambda>p. if p \<in> set [''/bin/cat'', ''/bin/ls'', ''/bin/wc'', ''/a/prog'', ''/b/prog'']
             then Some Regular else None),
      faccessat_X_OK = (\<lambda>p. p \<in> set [''/bin/cat'', ''/bin/ls'', ''/bin/wc'', ''/b/prog'']),
      glob_paths = (\<lambda>p. if p = ''~'' then [''/home/u''] else []),
      tilde_expand =
        (\<lambda>p. if p = ''~'' then ''/home/u'' else if p = ''~guest'' then ''/home/guest''
             else p),
      fopen_ok = (\<lambda>p mode. p = ''./out'' \<or> p = ''/home/u/.cowrie_history''),
      getenv_HOME = Some ''/home/u'',
      spawn_pid = (\<lambda>k. Some (100 + k)),
      waitpid_status = (\<lambda>child. Some 256)\<rparr>"

text \<open>
  The same system with a file \<^verbatim>\<open>./notabinary\<close> that has execute permission and is not
  a program: \<^verbatim>\<open>posix_spawn\<close> fails on it (the second stage of the line).  The process
  of the first stage ends with exit status 2.
\<close>

definition notabinary_os :: os where
  "notabinary_os =
     example_os
       \<lparr>access_F_OK := (\<lambda>p. p \<in> set [''/bin/ls'', ''./notabinary'']),
        stat_kind :=
          (\<lambda>p. if p \<in> set [''/bin/ls'', ''./notabinary''] then Some Regular else None),
        faccessat_X_OK := (\<lambda>p. p \<in> set [''/bin/ls'', ''./notabinary'']),
        spawn_pid := (\<lambda>k. if k = 0 then Some 100 else None),
        waitpid_status := (\<lambda>child. if child = 100 then Some 512 else None)\<rparr>"

text \<open>
  The same system in a directory that holds two files, called \<^verbatim>\<open>*\<close> and \<^verbatim>\<open>?\<close>: both
  patterns match both files.
\<close>

definition star_query_os :: os where
  "star_query_os =
     example_os
       \<lparr>glob_paths := (\<lambda>p. if p = ''*'' \<or> p = ''?'' then [''*'', ''?''] else [])\<rparr>"

text \<open>The same system without \<^verbatim>\<open>HOME\<close> in the environment.\<close>

definition no_home_os :: os where
  "no_home_os = example_os \<lparr>getenv_HOME := None\<rparr>"

section \<open>Properties of glob expansion\<close>

lemma new_words_eq:
  assumes "i < length words"
  shows "new_words words i pv = take i words @ pv @ drop (Suc i) words"
proof -
  have a: "map (\<lambda>s. words ! s) [0..<i] = take i words"
    using assms by (intro nth_equalityI) simp_all
  have b: "map (\<lambda>s. pv ! (s - i)) [i..<length pv + i] = pv"
    by (rule nth_equalityI) (simp_all add: add.commute)
  have c: "map (\<lambda>s. words ! (i + s + 1 - (length pv + i))) [length pv + i..<length pv + length words - 1]
           = drop (Suc i) words"
    using assms by (intro nth_equalityI) (auto simp: add.commute)
  show ?thesis unfolding new_words_def Let_def a b c ..
qed

lemma glob_nonempty: "glob sys p \<noteq> []"
  by (simp add: glob_def)

lemma glob_loop_unfold:
  "glob_loop sys i words =
     (if i < length words then
        (if needs_glob (words ! i)
         then glob_loop sys (Suc i) (take i words @ glob sys (words ! i) @ drop (Suc i) words)
         else glob_loop sys (Suc i) words)
      else Some words)"
  by (subst glob_loop.simps) (simp add: new_words_eq)

lemma glob_loop_induct [consumes 1, case_names stop expand skip]:
  assumes run: "glob_loop sys i words = Some r"
    and stop: "\<And>i words. \<not> i < length words \<Longrightarrow> P i words words"
    and expand: "\<And>i words r. i < length words \<Longrightarrow> needs_glob (words ! i) \<Longrightarrow>
        glob_loop sys i words = Some r \<Longrightarrow>
        glob_loop sys (Suc i) (take i words @ glob sys (words ! i) @ drop (Suc i) words) = Some r \<Longrightarrow>
        P (Suc i) (take i words @ glob sys (words ! i) @ drop (Suc i) words) r \<Longrightarrow> P i words r"
    and skip: "\<And>i words r. i < length words \<Longrightarrow> \<not> needs_glob (words ! i) \<Longrightarrow>
        glob_loop sys i words = Some r \<Longrightarrow>
        glob_loop sys (Suc i) words = Some r \<Longrightarrow> P (Suc i) words r \<Longrightarrow> P i words r"
  shows "P i words r"
proof -
  have "glob_loop sys i words = Some r \<and> (sys = sys \<longrightarrow> P i words r)"
  proof (rule glob_loop.raw_induct
      [where P = "\<lambda>s i words r. glob_loop s i words = Some r \<and> (s = sys \<longrightarrow> P i words r)",
       OF _ run], goal_cases)
    case (1 g s i words r)
    show ?case
    proof (cases "i < length words")
      case False
      with 1(2) have "r = words" by simp
      with False show ?thesis using stop [of i words] by (simp add: glob_loop_unfold)
    next
      case True
      note len = this
      show ?thesis
      proof (cases "needs_glob (words ! i)")
        case True
        with len 1(2) have "g s (i + 1) (new_words words i (glob s (words ! i))) = Some r"
          by simp
        from 1(1) [OF this]
        have rec: "glob_loop s (Suc i)
                     (take i words @ glob s (words ! i) @ drop (Suc i) words) = Some r"
          and ih: "s = sys \<longrightarrow>
                   P (Suc i) (take i words @ glob s (words ! i) @ drop (Suc i) words) r"
          using len by (simp_all add: new_words_eq)
        have real: "glob_loop s i words = Some r"
          using rec len True by (subst glob_loop_unfold) simp
        moreover have "P i words r" if "s = sys"
          using expand [of i words r] len True real rec ih that by simp
        ultimately show ?thesis by simp
      next
        case False
        with len 1(2) have "g s (i + 1) words = Some r" by simp
        from 1(1) [OF this]
        have rec: "glob_loop s (Suc i) words = Some r"
          and ih: "s = sys \<longrightarrow> P (Suc i) words r"
          by simp_all
        have real: "glob_loop s i words = Some r"
          using rec len False by (subst glob_loop_unfold) simp
        moreover have "P i words r" if "s = sys"
          using skip [of i words r] len False real rec ih that by simp
        ultimately show ?thesis by simp
      qed
    qed
  qed
  then show ?thesis by simp
qed

lemma glob_loop_prefix:
  "glob_loop sys i words = Some r \<Longrightarrow> take i r = take i words \<and> length words \<le> length r"
proof (induction rule: glob_loop_induct)
  case (stop i words)
  show ?case by simp
next
  case (expand i words r)
  let ?new = "take i words @ glob sys (words ! i) @ drop (Suc i) words"
  have "take i r = take i (take (Suc i) r)" by (simp add: min_def)
  also have "\<dots> = take i (take (Suc i) ?new)" using expand.IH by (simp only:)
  also have "\<dots> = take i ?new" by (simp add: min_def)
  also have "\<dots> = take i words" using expand.hyps by simp
  finally have "take i r = take i words" .
  moreover have "length words \<le> length ?new"
    using glob_nonempty [of sys "words ! i"] expand.hyps
    by (cases "glob sys (words ! i)") simp_all
  ultimately show ?case using expand.IH by simp
next
  case (skip i words r)
  have "take i r = take i (take (Suc i) r)" by (simp add: min_def)
  also have "\<dots> = take i (take (Suc i) words)" using skip.IH by (simp only:)
  also have "\<dots> = take i words" by (simp add: min_def)
  finally show ?case using skip.IH by simp
qed

lemma glob_loop_shift_Some:
  "glob_loop sys i ys = Some r \<Longrightarrow> glob_loop sys (length xs + i) (xs @ ys) = Some (xs @ r)"
proof (induction rule: glob_loop_induct)
  case (stop i words)
  then show ?case by (subst glob_loop_unfold) simp
next
  case (expand i words r)
  then show ?case
    by (subst glob_loop_unfold) (simp add: nth_append)
next
  case (skip i words r)
  then show ?case
    by (subst glob_loop_unfold) (simp add: nth_append)
qed

lemma glob_loop_unshift_Some:
  "glob_loop sys j zs = Some r \<Longrightarrow> zs = xs @ ys \<Longrightarrow> j = length xs + i \<Longrightarrow>
   \<exists>r'. glob_loop sys i ys = Some r' \<and> r = xs @ r'"
proof (induction arbitrary: ys i rule: glob_loop_induct)
  case (stop j zs)
  then show ?case by (subst glob_loop_unfold) simp
next
  case (expand j zs r)
  have "take j zs @ glob sys (zs ! j) @ drop (Suc j) zs
        = xs @ (take i ys @ glob sys (ys ! i) @ drop (Suc i) ys)"
    using expand.prems expand.hyps by (simp add: nth_append)
  from expand.IH [OF this] expand.prems
  obtain r' where "glob_loop sys (Suc i) (take i ys @ glob sys (ys ! i) @ drop (Suc i) ys) = Some r'"
    and "r = xs @ r'" by auto
  then show ?case using expand.prems expand.hyps
    by (subst glob_loop_unfold) (simp add: nth_append)
next
  case (skip j zs r)
  from skip.IH [of ys "Suc i"] skip.prems
  obtain r' where "glob_loop sys (Suc i) ys = Some r'" and "r = xs @ r'" by auto
  then show ?case using skip.prems skip.hyps
    by (subst glob_loop_unfold) (simp add: nth_append)
qed

lemma glob_loop_shift:
  "glob_loop sys (length xs + i) (xs @ ys) = map_option ((@) xs) (glob_loop sys i ys)"
proof (cases "glob_loop sys i ys")
  case (Some r)
  then show ?thesis by (simp add: glob_loop_shift_Some)
next
  case None
  show ?thesis
  proof (cases "glob_loop sys (length xs + i) (xs @ ys)")
    case None
    with \<open>glob_loop sys i ys = None\<close> show ?thesis by simp
  next
    case (Some r)
    from glob_loop_unshift_Some [OF this refl refl] None show ?thesis by simp
  qed
qed




lemma glob_loop_skip_plain:
  "\<forall>m\<in>set ms. \<not> needs_glob m \<Longrightarrow>
   glob_loop sys (length pre) (pre @ ms @ rest)
   = glob_loop sys (length pre + length ms) (pre @ ms @ rest)"
proof (induction ms arbitrary: pre)
  case Nil
  show ?case by simp
next
  case (Cons m ms)
  have "glob_loop sys (length pre) (pre @ (m # ms) @ rest)
        = glob_loop sys (Suc (length pre)) (pre @ (m # ms) @ rest)"
    using Cons.prems by (subst glob_loop_unfold) simp
  also have "\<dots> = glob_loop sys (length (pre @ [m])) ((pre @ [m]) @ ms @ rest)" by simp
  also have "\<dots> = glob_loop sys (length (pre @ [m]) + length ms) ((pre @ [m]) @ ms @ rest)"
    using Cons.prems by (intro Cons.IH) simp
  finally show ?case by simp
qed

lemma glob_tail_plain:
  assumes "\<forall>p. \<forall>m\<in>set (glob_paths sys p). \<not> needs_glob m"
  shows "\<forall>m\<in>set (tl (glob sys w)). \<not> needs_glob m"
proof (cases "glob_paths sys w = []")
  case True
  then show ?thesis by (simp add: glob_def)
next
  case False
  then have "set (tl (glob sys w)) \<subseteq> set (glob_paths sys w)"
    by (cases "glob_paths sys w") (auto simp: glob_def)
  with assms show ?thesis by blast
qed

lemma glob_loop_terminates:
  assumes clean: "\<forall>p. \<forall>m\<in>set (glob_paths sys p). \<not> needs_glob m"
  shows "\<forall>m\<in>set ms. \<not> needs_glob m \<Longrightarrow>
         \<exists>r. glob_loop sys (length pre) (pre @ ms @ rest) = Some r"
proof (induction rest arbitrary: pre ms)
  case Nil
  have "glob_loop sys (length pre) (pre @ ms @ [])
        = glob_loop sys (length pre + length ms) (pre @ ms @ [])"
    using Nil by (rule glob_loop_skip_plain)
  also have "\<dots> = Some (pre @ ms)" by (subst glob_loop_unfold) simp
  finally show ?case by blast
next
  case (Cons w rest)
  show ?case
  proof (cases "needs_glob w")
    case False
    with Cons.prems have "\<forall>m\<in>set (ms @ [w]). \<not> needs_glob m" by simp
    from Cons.IH [OF this, of pre] show ?thesis by simp
  next
    case True
    obtain g gs where g: "glob sys w = g # gs"
      using glob_nonempty [of sys w] by (cases "glob sys w") auto
    have gs: "\<forall>m\<in>set gs. \<not> needs_glob m"
      using glob_tail_plain [OF clean, of w] g by simp
    have "glob_loop sys (length pre) (pre @ ms @ w # rest)
          = glob_loop sys (length pre + length ms) (pre @ ms @ w # rest)"
      using Cons.prems by (rule glob_loop_skip_plain)
    also have "\<dots> = glob_loop sys (length (pre @ ms @ [g])) ((pre @ ms @ [g]) @ gs @ rest)"
      using True g by (subst glob_loop_unfold) (simp add: nth_append)
    finally show ?thesis using Cons.IH [OF gs, of "pre @ ms @ [g]"] by simp
  qed
qed

lemma glob_words_terminates:
  assumes "\<forall>p. \<forall>m\<in>set (glob_paths sys p). \<not> needs_glob m" and "words \<noteq> []"
  shows "\<exists>r. glob_words sys words = Some r"
proof -
  obtain w rest where "words = w # rest" using assms(2) by (cases words) auto
  then show ?thesis
    using glob_loop_terminates [OF assms(1), of "[]" "[w]" rest]
    by (simp add: glob_words_def)
qed

lemma append_singleton_fun: "(@) [x] = (#) x"
  by (rule ext) simp

lemma glob_words_Cons:
  "glob_words sys (program # args) = map_option ((#) program) (glob_loop sys 0 args)"
  using glob_loop_shift [of sys "[program]" 0 args]
  by (simp add: glob_words_def append_singleton_fun)

lemma glob_loop_plain:
  "\<forall>k. i \<le> k \<and> k < length words \<longrightarrow> \<not> needs_glob (words ! k) \<Longrightarrow>
   glob_loop sys i words = Some words"
proof (induction "length words - i" arbitrary: i)
  case 0
  then show ?case by (subst glob_loop_unfold) simp
next
  case (Suc n)
  then have "i < length words" by simp
  moreover have "\<not> needs_glob (words ! i)" using Suc.prems \<open>i < length words\<close> by simp
  moreover have "glob_loop sys (Suc i) words = Some words"
    using Suc by (intro Suc.hyps(1)) auto
  ultimately show ?case
    by (subst glob_loop_unfold) simp
qed

text \<open>
  A word that \<^verbatim>\<open>glob\<close> expands to some words followed by the word itself: the loop
  finds the word again at the next index, and never ends.
\<close>

lemma glob_loop_runs_forever:
  assumes q: "needs_glob q" and g: "glob sys q = [a, q]"
    and i: "i < length words" and w: "words ! i = q"
  shows "glob_loop sys i words = None"
proof (rule ccontr)
  assume "glob_loop sys i words \<noteq> None"
  then obtain r where "glob_loop sys i words = Some r" by blast
  then have "\<not> (i < length words \<and> words ! i = q)"
  proof (induction rule: glob_loop_induct)
    case (stop i words)
    then show ?case by simp
  next
    case (expand i words r)
    show ?case
    proof
      assume a: "i < length words \<and> words ! i = q"
      let ?new = "take i words @ glob sys (words ! i) @ drop (Suc i) words"
      have "?new = take i words @ a # q # drop (Suc i) words" using a g by simp
      moreover have "length (take i words) = i" using a by simp
      ultimately have "?new ! Suc i = q" and "Suc i < length ?new"
        by (simp_all add: nth_append)
      with expand.IH show False by simp
    qed
  next
    case (skip i words r)
    then show ?case using q by auto
  qed
  with i w show False by simp
qed

text \<open>
  Claim C9.  \<^verbatim>\<open>glob_words\<close> scans the words from index 1 on: on a line \<open>program # args\<close>
  the result is the program name, untouched whatever characters it contains, followed by
  what the loop makes of the arguments alone.  Whenever the expansion returns, the word at
  index 0 is the one the line started with; and it does return on every system whose
  matches contain no metacharacter themselves.
\<close>

theorem glob_words_program_name_unchanged:
  "glob_words sys (program # args) = map_option ((#) program) (glob_loop sys 0 args)
   \<and> (\<forall>r. glob_words sys (program # args) = Some r \<longrightarrow> r \<noteq> [] \<and> r ! 0 = program)
   \<and> ((\<forall>p. \<forall>m\<in>set (glob_paths sys p). \<not> needs_glob m) \<longrightarrow>
        (\<exists>r. glob_words sys (program # args) = Some r))"
  using glob_words_terminates [of sys "program # args"]
  by (auto simp: glob_words_Cons)

theorem glob_words_program_name_unchanged_witness:
  "needs_glob ''*'' \<and> glob_words example_os [''*'', ''a''] = Some [''*'', ''a'']"
proof -
  have "glob_loop example_os 0 [''a''] = Some [''a'']"
    by (simp add: glob_loop_unfold needs_glob_def strrchr_def)
  moreover have "needs_glob ''*''" by (simp add: needs_glob_def strrchr_def)
  moreover have "glob_words example_os [''*'', ''a'']
                 = map_option ((#) ''*'') (glob_loop example_os 0 [''a''])"
    using glob_words_program_name_unchanged [of example_os "''*''" "[''a'']"] by blast
  ultimately show ?thesis by simp
qed




section \<open>Pipeline validation\<close>

lemma valid_pipe_loop_double:
  "\<not> valid_pipe_loop len i prev (xs @ ''|'' # ''|'' # ys)"
  by (induction xs arbitrary: i prev) auto

lemma valid_pipe_loop_adjacent:
  assumes "Suc k < length words" and "words ! k = ''|''" and "words ! Suc k = ''|''"
  shows "\<not> valid_pipe_loop len i prev words"
proof -
  have "words = take k words @ words ! k # words ! Suc k # drop (Suc (Suc k)) words"
    using assms(1) by (simp add: Cons_nth_drop_Suc Suc_lessD)
  then have "words = take k words @ ''|'' # ''|'' # drop (Suc (Suc k)) words"
    using assms(2,3) by simp
  then show ?thesis using valid_pipe_loop_double by metis
qed

text \<open>
  Claim C2.  A word list that starts with the pipe token, ends with the pipe token or has
  two pipe tokens next to each other is refused by \<^verbatim>\<open>valid_pipe\<close>;
  \<^verbatim>\<open>execute_external\<close> then prints \<^verbatim>\<open>invalid pipe\<close> and returns, and no process has
  been started.
\<close>

theorem invalid_pipeline_rejected:
  assumes "words \<noteq> []"
    and "hd words = ''|'' \<or> last words = ''|''
         \<or> (\<exists>k. Suc k < length words \<and> words ! k = ''|'' \<and> words ! Suc k = ''|'')"
  shows "\<not> valid_pipe words
    \<and> execute_external sys words path = ([Stderr ''invalid pipe\<newline>''], Returned)
    \<and> filter is_spawn (fst (execute_external sys words path)) = []"
proof -
  have "\<not> valid_pipe words"
    using assms(2) valid_pipe_loop_adjacent [of _ words "int (length words)" 0 False]
    by (auto simp: valid_pipe_def)
  then show ?thesis using assms(1) by (simp add: execute_external_def)
qed

theorem invalid_pipeline_rejected_witness:
  "[''ls'', ''|'', ''|'', ''wc''] \<noteq> []
   \<and> [''ls'', ''|'', ''|'', ''wc''] ! 1 = ''|'' \<and> [''ls'', ''|'', ''|'', ''wc''] ! 2 = ''|''
   \<and> execute_external example_os [''ls'', ''|'', ''|'', ''wc''] [''/bin'']
       = ([Stderr ''invalid pipe\<newline>''], Returned)"
proof -
  have "\<exists>k. Suc k < length [''ls'', ''|'', ''|'', ''wc'']
            \<and> [''ls'', ''|'', ''|'', ''wc''] ! k = ''|''
            \<and> [''ls'', ''|'', ''|'', ''wc''] ! Suc k = ''|''"
    by (rule exI [of _ 1]) simp
  then show ?thesis
    using invalid_pipeline_rejected [of "[''ls'', ''|'', ''|'', ''wc'']" example_os "[''/bin'']"] by simp
qed

section \<open>Command lines\<close>

lemma tokenize_cat: "tokenize ''cat < nonexistent.txt\<newline>'' WORD_SEPARATORS SPECIAL_CHARS
   = [''cat'', ''<'', ''nonexistent.txt'']"
  by (simp add: tokenize.simps WORD_SEPARATORS_def SPECIAL_CHARS_def strspn_def strcspn_def)

lemma glob_words_plain:
  "words \<noteq> [] \<Longrightarrow> \<forall>w\<in>set (tl words). \<not> needs_glob w \<Longrightarrow> glob_words sys words = Some words"
  unfolding glob_words_def
  by (rule glob_loop_plain) (cases words, auto simp: nth_Cons split: nat.splits)

lemma tokenize_lt_f: "tokenize ''< f\<newline>'' WORD_SEPARATORS SPECIAL_CHARS = [''<'', ''f'']"
  by (simp add: tokenize.simps WORD_SEPARATORS_def SPECIAL_CHARS_def strspn_def strcspn_def)

lemma null_program:
  "words \<noteq> [] \<Longrightarrow> strrchr (words ! 0) CHR ''<'' \<Longrightarrow> length words \<le> 2 \<Longrightarrow>
   program_of words = None \<and> execute_command sys words path = Some ([], Undefined_behaviour)"
  by (simp add: program_of_def execute_command_def)

lemma store_command_eq:
  "store_command sys words =
     (if history_opens sys then ([Store_command words], Returned)
      else ([], Undefined_behaviour))"
  by (simp add: store_command_def history_opens_def split: option.split)

lemma glob_words_length:
  assumes "glob_words sys words = Some globbed"
  shows "length words \<le> length globbed"
  using glob_loop_prefix [of sys 1 words globbed] assms by (simp add: glob_words_def)

text \<open>\<^verbatim>\<open>execute_command\<close> on a line with a program name, branch by branch.\<close>

lemma execute_command_history:
  assumes "words \<noteq> []" and "program_of words = Some ''history''"
  shows "execute_command sys words path =
           Some ((if is_redirect words then no_redirect ''history''
                  else Call_builtin ''print_history'' words)
                 # fst (store_command sys words), snd (store_command sys words))"
  using assms by (simp add: execute_command_def split: prod.split)

lemma execute_command_bang:
  assumes "words \<noteq> []" and "program_of words = Some ''!''"
  shows "execute_command sys words path =
           Some ([if is_redirect words then no_redirect ''!''
                  else Call_builtin ''execute_history'' words], Returned)"
  using assms by (simp add: execute_command_def)

lemma execute_command_not_stored:
  assumes "words \<noteq> []" and "program_of words = Some b"
    and "b \<noteq> ''history''" and "b \<noteq> ''!''" and "\<not> history_opens sys"
  shows "execute_command sys words path = Some ([], Undefined_behaviour)"
  using assms by (simp add: execute_command_def store_command_eq)

lemma execute_command_glob_loops:
  assumes "words \<noteq> []" and "program_of words = Some b"
    and "b \<noteq> ''history''" and "b \<noteq> ''!''" and "history_opens sys"
    and "glob_words sys words = None"
  shows "execute_command sys words path = None"
  using assms by (simp add: execute_command_def store_command_eq)

lemma execute_command_other_builtin:
  assumes "words \<noteq> []" and "program_of words = Some b"
    and "b = ''exit'' \<or> b = ''cd'' \<or> b = ''pwd''" and "history_opens sys"
    and "glob_words sys words = Some globbed"
  shows "execute_command sys words path =
           Some ([Store_command words,
                  if is_redirect words then no_redirect b
                  else Call_builtin (if b = ''exit'' then ''do_exit'' else b) globbed],
                 Returned)"
proof -
  from assms(3) consider "b = ''exit''" | "b = ''cd''" | "b = ''pwd''" by blast
  then show ?thesis
  proof cases
    case 1
    then show ?thesis
      using assms(1,2,4,5) by (simp add: execute_command_def store_command_eq)
  next
    case 2
    then show ?thesis
      using assms(1,2,4,5) by (simp add: execute_command_def store_command_eq)
  next
    case 3
    then show ?thesis
      using assms(1,2,4,5) by (simp add: execute_command_def store_command_eq)
  qed
qed

lemma execute_command_external:
  assumes "words \<noteq> []" and "program_of words = Some b"
    and "b \<noteq> ''history''" and "b \<noteq> ''!''"
    and "b \<noteq> ''exit''" and "b \<noteq> ''cd''" and "b \<noteq> ''pwd''"
    and "history_opens sys" and "glob_words sys words = Some globbed"
  shows "execute_command sys words path =
           Some (Store_command words # fst (execute_external sys globbed path),
                 snd (execute_external sys globbed path))"
  using assms by (simp add: execute_command_def store_command_eq split: prod.split)

lemma execute_external_invalid:
  assumes "globbed \<noteq> []" and "\<not> valid_pipe globbed"
  shows "execute_external sys globbed path = ([Stderr ''invalid pipe\<newline>''], Returned)"
  using assms by (simp add: execute_external_def)

text \<open>
  Claim C5 asks, on a line whose program name is a built-in and on which a redirection or
  a pipe is detected, for the message of \<^verbatim>\<open>no_redirect\<close> in place of the built-in.  For
  \<^verbatim>\<open>history\<close> and \<^verbatim>\<open>!\<close> the message is the first thing the shell does.  For
  \<^verbatim>\<open>cd\<close>, \<^verbatim>\<open>pwd\<close> and \<^verbatim>\<open>exit\<close> the test of \<^verbatim>\<open>is_redirect\<close> comes after
  \<^verbatim>\<open>store_command\<close> and \<^verbatim>\<open>glob_words\<close>, and is not always reached.  In a directory
  that holds the two files \<^verbatim>\<open>*\<close> and \<^verbatim>\<open>?\<close> the line \<^verbatim>\<open>cd ? > out\<close> gets no message:
  the glob loop finds the match \<^verbatim>\<open>?\<close> again at the next index and never ends (the array
  grows in every turn).  Without \<^verbatim>\<open>HOME\<close> in the environment the line \<^verbatim>\<open>cd foo > out\<close>
  gets no message either: \<^verbatim>\<open>store_command\<close> hands the NULL pointer to \<^verbatim>\<open>strlen\<close>.
  The line \<^verbatim>\<open>history ? > out\<close> gets its message in the first directory.
\<close>

theorem builtin_redirection_message_not_reached:
  "program_of [''cd'', ''?'', ''>'', ''out''] = Some ''cd''
   \<and> is_redirect [''cd'', ''?'', ''>'', ''out'']
   \<and> glob star_query_os ''?'' = [''*'', ''?'']
   \<and> execute_command star_query_os [''cd'', ''?'', ''>'', ''out''] [''/bin''] = None
   \<and> program_of [''cd'', ''foo'', ''>'', ''out''] = Some ''cd''
   \<and> is_redirect [''cd'', ''foo'', ''>'', ''out'']
   \<and> getenv_HOME no_home_os = None
   \<and> execute_command no_home_os [''cd'', ''foo'', ''>'', ''out''] [''/bin'']
       = Some ([], Undefined_behaviour)
   \<and> execute_command star_query_os [''history'', ''?'', ''>'', ''out''] [''/bin'']
       = Some ([Stderr ''history: I/O redirection not permitted for builtin commands\<newline>'',
                Store_command [''history'', ''?'', ''>'', ''out'']], Returned)"
proof -
  have p: "program_of [''cd'', ''?'', ''>'', ''out''] = Some ''cd''"
    by (simp add: program_of_def strrchr_def)
  have r: "is_redirect [''cd'', ''?'', ''>'', ''out'']" by (simp add: is_redirect_def)
  have q: "needs_glob ''?''" by (simp add: needs_glob_def strrchr_def)
  have g: "glob star_query_os ''?'' = [''*'', ''?'']"
    by (simp add: glob_def star_query_os_def example_os_def)
  have h: "history_opens star_query_os"
    by (simp add: history_opens_def get_file_in_home_def star_query_os_def example_os_def)
  have "glob_words star_query_os [''cd'', ''?'', ''>'', ''out''] = None"
    unfolding glob_words_def by (rule glob_loop_runs_forever [OF q g]) simp_all
  then have loops: "execute_command star_query_os [''cd'', ''?'', ''>'', ''out''] [''/bin'']
      = None"
    using p h by (intro execute_command_glob_loops [where b = "''cd''"]) simp_all
  have p': "program_of [''cd'', ''foo'', ''>'', ''out''] = Some ''cd''"
    by (simp add: program_of_def strrchr_def)
  have r': "is_redirect [''cd'', ''foo'', ''>'', ''out'']" by (simp add: is_redirect_def)
  have e: "getenv_HOME no_home_os = None" by (simp add: no_home_os_def)
  then have "\<not> history_opens no_home_os"
    by (simp add: history_opens_def get_file_in_home_def)
  then have crash: "execute_command no_home_os [''cd'', ''foo'', ''>'', ''out''] [''/bin'']
       = Some ([], Undefined_behaviour)"
    using p' by (intro execute_command_not_stored [where b = "''cd''"]) simp_all
  have "program_of [''history'', ''?'', ''>'', ''out''] = Some ''history''"
    by (simp add: program_of_def strrchr_def)
  moreover have "is_redirect [''history'', ''?'', ''>'', ''out'']"
    by (simp add: is_redirect_def)
  ultimately have hist:
    "execute_command star_query_os [''history'', ''?'', ''>'', ''out''] [''/bin'']
       = Some ([Stderr ''history: I/O redirection not permitted for builtin commands\<newline>'',
                Store_command [''history'', ''?'', ''>'', ''out'']], Returned)"
    using h
    by (simp add: execute_command_history [where sys = star_query_os] store_command_eq
        no_redirect_def)
  from p r g loops p' r' e crash hist show ?thesis by (intro conjI)
qed

text \<open>
  Claim C6, as the specification states it: validation runs before the built-ins are
  dispatched, so a malformed pipeline that names a built-in is rejected as an invalid
  pipeline.  It fails on the line \<^verbatim>\<open>pwd < x\<close>: \<^verbatim>\<open>valid_pipe\<close> refuses these words,
  and yet the shell calls \<^verbatim>\<open>pwd\<close>.
\<close>

theorem builtin_runs_on_malformed_pipeline:
  "\<not> valid_pipe [''pwd'', ''<'', ''x'']
   \<and> execute_command example_os [''pwd'', ''<'', ''x''] [''/bin'']
       = Some ([Store_command [''pwd'', ''<'', ''x''],
                Call_builtin ''pwd'' [''pwd'', ''<'', ''x'']], Returned)"
proof -
  have g: "glob_words example_os [''pwd'', ''<'', ''x''] = Some [''pwd'', ''<'', ''x'']"
    by (rule glob_words_plain) (simp_all add: needs_glob_def strrchr_def)
  have h: "history_opens example_os"
    by (simp add: history_opens_def get_file_in_home_def example_os_def)
  have "\<not> valid_pipe [''pwd'', ''<'', ''x'']" by (simp add: valid_pipe_def)
  then show ?thesis
    by (simp add: execute_command_def program_of_def strrchr_def g is_redirect_def
        store_command_eq h)
qed

text \<open>
  Claim C6, amended.  \<^verbatim>\<open>valid_pipe\<close> is called in \<^verbatim>\<open>execute_external\<close> only, after the
  built-ins have been dispatched, and a line whose program name is a built-in is never
  validated.  The result of a line with the program name \<open>b\<close> is, case by case:
  \<^verbatim>\<open>history\<close> and \<^verbatim>\<open>!\<close> are dispatched at once, and get the message of
  \<^verbatim>\<open>no_redirect\<close> when \<^verbatim>\<open>is_redirect\<close> is set and the call of the built-in when it is
  not (\<^verbatim>\<open>history\<close> then stores the line).  Every other line is first stored in the
  history and then glob-expanded; when the history file cannot be opened the shell goes
  no further, and when the glob loop does not end nothing follows.  After that \<^verbatim>\<open>exit\<close>,
  \<^verbatim>\<open>cd\<close> and \<^verbatim>\<open>pwd\<close> get the message of \<^verbatim>\<open>no_redirect\<close> when \<^verbatim>\<open>is_redirect\<close> is
  set and are called when it is not, malformed pipeline or not.  Only a line with another
  program name reaches \<^verbatim>\<open>execute_external\<close>, and is rejected there with
  \<^verbatim>\<open>invalid pipe\<close> when the expanded words are not a valid pipeline.
\<close>

theorem validation_after_builtin_dispatch:
  assumes "words \<noteq> []" and "program_of words = Some b"
  shows "execute_command sys words path =
     (if b = ''history'' then
        Some ((if is_redirect words then no_redirect b
               else Call_builtin ''print_history'' words)
              # fst (store_command sys words), snd (store_command sys words))
      else if b = ''!'' then
        Some ([if is_redirect words then no_redirect b
               else Call_builtin ''execute_history'' words], Returned)
      else if \<not> history_opens sys then Some ([], Undefined_behaviour)
      else
        (case glob_words sys words of
           None \<Rightarrow> None
         | Some globbed \<Rightarrow>
             if b = ''exit'' \<or> b = ''cd'' \<or> b = ''pwd'' then
               Some ([Store_command words,
                      if is_redirect words then no_redirect b
                      else Call_builtin (if b = ''exit'' then ''do_exit'' else b) globbed],
                     Returned)
             else if \<not> valid_pipe globbed then
               Some ([Store_command words, Stderr ''invalid pipe\<newline>''], Returned)
             else
               Some (Store_command words # fst (execute_external sys globbed path),
                     snd (execute_external sys globbed path))))"
proof -
  consider (history) "b = ''history''"
    | (bang) "b \<noteq> ''history''" "b = ''!''"
    | (crash) "b \<noteq> ''history''" "b \<noteq> ''!''" "\<not> history_opens sys"
    | (loops) "b \<noteq> ''history''" "b \<noteq> ''!''" "history_opens sys"
        "glob_words sys words = None"
    | (builtin) globbed where "b \<noteq> ''history''" "b \<noteq> ''!''" "history_opens sys"
        "glob_words sys words = Some globbed" "b = ''exit'' \<or> b = ''cd'' \<or> b = ''pwd''"
    | (external) globbed where "b \<noteq> ''history''" "b \<noteq> ''!''" "history_opens sys"
        "glob_words sys words = Some globbed" "b \<noteq> ''exit''" "b \<noteq> ''cd''" "b \<noteq> ''pwd''"
    by (cases "glob_words sys words") blast+
  then show ?thesis
  proof cases
    case history
    then show ?thesis using execute_command_history [OF assms(1), of sys path] assms(2) by simp
  next
    case bang
    then show ?thesis using execute_command_bang [OF assms(1), of sys path] assms(2) by simp
  next
    case crash
    then show ?thesis using execute_command_not_stored [OF assms, of sys path] by simp
  next
    case loops
    then show ?thesis using execute_command_glob_loops [OF assms, of sys path] by simp
  next
    case builtin
    then show ?thesis
      using execute_command_other_builtin [OF assms builtin(5,3,4), of path] by simp
  next
    case external
    have "globbed \<noteq> []"
      using glob_words_length [OF external(4)] assms(1) by (cases words) auto
    then have "\<not> valid_pipe globbed \<Longrightarrow>
        execute_external sys globbed path = ([Stderr ''invalid pipe\<newline>''], Returned)"
      by (rule execute_external_invalid)
    then show ?thesis
      using execute_command_external [OF assms external(1,2,5,6,7,3,4), of path] external
      by simp
  qed
qed

theorem validation_after_builtin_dispatch_witness:
  "program_of [''pwd'', ''<'', ''x''] = Some ''pwd'' \<and> \<not> is_redirect [''pwd'', ''<'', ''x'']
   \<and> \<not> valid_pipe [''pwd'', ''<'', ''x''] \<and> history_opens example_os
   \<and> glob_words example_os [''pwd'', ''<'', ''x''] = Some [''pwd'', ''<'', ''x'']
   \<and> execute_command example_os [''pwd'', ''<'', ''x''] [''/bin'']
       = Some ([Store_command [''pwd'', ''<'', ''x''],
                Call_builtin ''pwd'' [''pwd'', ''<'', ''x'']], Returned)
   \<and> program_of [''ls'', ''|'', ''|'', ''x''] = Some ''ls''
   \<and> glob_words example_os [''ls'', ''|'', ''|'', ''x''] = Some [''ls'', ''|'', ''|'', ''x'']
   \<and> \<not> valid_pipe [''ls'', ''|'', ''|'', ''x'']
   \<and> execute_command example_os [''ls'', ''|'', ''|'', ''x''] [''/bin'']
       = Some ([Store_command [''ls'', ''|'', ''|'', ''x''], Stderr ''invalid pipe\<newline>''],
               Returned)"
proof -
  have a: "[''pwd'', ''<'', ''x''] \<noteq> []" by simp
  have b: "program_of [''pwd'', ''<'', ''x''] = Some ''pwd''"
    by (simp add: program_of_def strrchr_def)
  have c: "\<not> is_redirect [''pwd'', ''<'', ''x'']" by (simp add: is_redirect_def strrchr_def)
  have d: "\<not> valid_pipe [''pwd'', ''<'', ''x'']" by (simp add: valid_pipe_def)
  have h: "history_opens example_os"
    by (simp add: history_opens_def get_file_in_home_def example_os_def)
  have g: "glob_words example_os [''pwd'', ''<'', ''x''] = Some [''pwd'', ''<'', ''x'']"
    by (rule glob_words_plain) (simp_all add: needs_glob_def strrchr_def)
  have e: "execute_command example_os [''pwd'', ''<'', ''x''] [''/bin'']
       = Some ([Store_command [''pwd'', ''<'', ''x''],
                Call_builtin ''pwd'' [''pwd'', ''<'', ''x'']], Returned)"
    using validation_after_builtin_dispatch [OF a b, of example_os "[''/bin'']"] c h g
    by simp
  have a': "[''ls'', ''|'', ''|'', ''x''] \<noteq> []" by simp
  have b': "program_of [''ls'', ''|'', ''|'', ''x''] = Some ''ls''"
    by (simp add: program_of_def strrchr_def)
  have g': "glob_words example_os [''ls'', ''|'', ''|'', ''x''] = Some [''ls'', ''|'', ''|'', ''x'']"
    by (rule glob_words_plain) (simp_all add: needs_glob_def strrchr_def)
  have d': "\<not> valid_pipe [''ls'', ''|'', ''|'', ''x'']" by (simp add: valid_pipe_def)
  have e': "execute_command example_os [''ls'', ''|'', ''|'', ''x''] [''/bin'']
       = Some ([Store_command [''ls'', ''|'', ''|'', ''x''], Stderr ''invalid pipe\<newline>''],
               Returned)"
    using validation_after_builtin_dispatch [OF a' b', of example_os "[''/bin'']"] h g' d'
    by simp
  from b c d h g e b' g' d' e' show ?thesis by (intro conjI)
qed

text \<open>
  Claim C8, as the specification states it: for \<^verbatim>\<open>cat < nonexistent.txt\<close> the shell
  reports the failure to open the file.  On a system where the file cannot be opened the
  trace of the line has no file input or output and no \<^verbatim>\<open>perror\<close> at all.
\<close>

theorem cat_input_redirect_no_io_error:
  "\<not> fopen_ok example_os ''nonexistent.txt'' ''r''
   \<and> execute_command example_os [''cat'', ''<'', ''nonexistent.txt''] [''/bin'']
       = Some ([Store_command [''cat'', ''<'', ''nonexistent.txt''],
                Stderr ''invalid pipe\<newline>''], Returned)
   \<and> filter is_file_io [Store_command [''cat'', ''<'', ''nonexistent.txt''],
                Stderr ''invalid pipe\<newline>''] = []"
proof -
  have g: "glob_words example_os [''cat'', ''<'', ''nonexistent.txt'']
           = Some [''cat'', ''<'', ''nonexistent.txt'']"
    by (rule glob_words_plain) (simp_all add: needs_glob_def strrchr_def)
  have v: "\<not> valid_pipe [''cat'', ''<'', ''nonexistent.txt'']"
    by (simp add: valid_pipe_def)
  have h: "history_opens example_os"
    by (simp add: history_opens_def get_file_in_home_def example_os_def)
  have "\<not> fopen_ok example_os ''nonexistent.txt'' ''r''" by (simp add: example_os_def)
  then show ?thesis
    by (simp add: execute_command_def program_of_def strrchr_def g execute_external_def v
        store_command_eq h)
qed

text \<open>
  Claim C8, amended.  In \<^verbatim>\<open>cat < nonexistent.txt\<close> the token \<^verbatim>\<open><\<close> is not the first
  word, so \<^verbatim>\<open>valid_pipe\<close> refuses the line on every system: once the shell has stored
  the command in the history, it prints \<^verbatim>\<open>invalid pipe\<close> and returns.  It starts no
  process, never tries to open the file and reports no failure to open it.  (When the
  history file cannot be opened the shell goes no further than \<^verbatim>\<open>store_command\<close>.)
\<close>

theorem cat_input_redirect_invalid_pipe:
  "execute_command sys (tokenize ''cat < nonexistent.txt\<newline>'' WORD_SEPARATORS SPECIAL_CHARS) path
   = (if history_opens sys
      then Some ([Store_command [''cat'', ''<'', ''nonexistent.txt''],
                  Stderr ''invalid pipe\<newline>''], Returned)
      else Some ([], Undefined_behaviour))"
proof -
  have g: "glob_words sys [''cat'', ''<'', ''nonexistent.txt'']
           = Some [''cat'', ''<'', ''nonexistent.txt'']"
    by (rule glob_words_plain) (simp_all add: needs_glob_def strrchr_def)
  have v: "\<not> valid_pipe [''cat'', ''<'', ''nonexistent.txt'']"
    by (simp add: valid_pipe_def)
  show ?thesis
    unfolding tokenize_cat
    by (simp add: execute_command_def program_of_def strrchr_def g execute_external_def v
        store_command_eq)
qed

text \<open>
  Claim C10 asks for a program name that is not NULL before it is compared with the names
  of the built-ins.  On the line \<^verbatim>\<open>< f\<close> (first word contains \<^verbatim>\<open><\<close>, two words) no
  branch assigns \<^verbatim>\<open>program\<close>, and \<^verbatim>\<open>strcmp(program, "history")\<close> reads the NULL pointer.
\<close>

theorem null_program_compared:
  "program_of (tokenize ''< f\<newline>'' WORD_SEPARATORS SPECIAL_CHARS) = None
   \<and> execute_command sys (tokenize ''< f\<newline>'' WORD_SEPARATORS SPECIAL_CHARS) path
       = Some ([], Undefined_behaviour)"
  unfolding tokenize_lt_f by (rule null_program) (simp_all add: strrchr_def)

section \<open>Looking up the program\<close>

text \<open>
  Claim C4 says that the search resolves a program name to the first directory of the path
  that holds a regular, executable file of that name.  \<^verbatim>\<open>get_full_path\<close> stops at the
  first directory in which a file of that name exists at all: with \<^verbatim>\<open>/a/prog\<close> not
  executable and \<^verbatim>\<open>/b/prog\<close> executable, the path \<^verbatim>\<open>/a:/b\<close> gives
  \<^verbatim>\<open>/a/prog: command not found\<close> and nothing is started.
\<close>

theorem path_search_stops_at_first_existing_file:
  "\<not> strrchr ''prog'' CHR ''/''
   \<and> is_executable example_os ''/b/prog'' \<and> \<not> is_executable example_os ''/a/prog''
   \<and> get_full_path example_os ''prog'' [''/a'', ''/b''] = Inr ''/a/prog''
   \<and> execute_external example_os [''prog''] [''/a'', ''/b'']
       = ([Pipe (Pipe_file_in 0), Pipe (Pipe_file_out 0),
           Stderr ''/a/prog: command not found\<newline>''], Returned)"
  by code_simp


section \<open>Output redirection\<close>









section \<open>The loop over the stages\<close>

text \<open>
  Claim C1 asks that the shell waits for the process of the last stage only, and reports
  the resolved path and the exit status of the last stage only.  \<^verbatim>\<open>execute_external\<close>
  does not look at the result of \<^verbatim>\<open>posix_spawn\<close>, and it keeps one variable \<^verbatim>\<open>child\<close>
  for all the stages.  On the line \<^verbatim>\<open>ls | ./notabinary\<close>, where \<^verbatim>\<open>./notabinary\<close>
  passes \<^verbatim>\<open>is_executable\<close> and \<^verbatim>\<open>posix_spawn\<close> fails on it, \<^verbatim>\<open>child\<close> still holds
  the process of \<^verbatim>\<open>ls\<close> after the loop: the shell waits for that process, the first
  stage, and prints its exit status, 2, under the path of the last stage.  The one
  connecting pipe of the two stages is created as the claim says.
\<close>

theorem failed_spawn_reports_earlier_stage:
  "valid_pipe [''ls'', ''|'', ''./notabinary'']
   \<and> num_pipes [''ls'', ''|'', ''./notabinary''] = 1
   \<and> is_executable notabinary_os ''/bin/ls'' \<and> is_executable notabinary_os ''./notabinary''
   \<and> spawn_pid notabinary_os 0 = Some 100 \<and> spawn_pid notabinary_os 1 = None
   \<and> waitpid_status notabinary_os 100 = Some 512 \<and> WEXITSTATUS 512 = 2
   \<and> execute_external notabinary_os [''ls'', ''|'', ''./notabinary''] [''/bin'']
       = ([Pipe (Pipe_array 0), Pipe (Pipe_file_in 0),
           Posix_spawn (Some 100) ''/bin/ls''
             [Addclose (Pipe_array 0), Adddup2 (Pipe_array 1) (Fd 1)] [''ls''],
           Close (Pipe_array 1), Pipe (Pipe_file_out 0),
           Posix_spawn None ''./notabinary'' [Adddup2 (Pipe_array 0) (Fd 0)]
             [''./notabinary''],
           Close (Pipe_array 0), Waitpid 100,
           Printf ''./notabinary exit status = 2\<newline>''], Returned)"
  by code_simp

end
